theory Spec2Isabelle
  imports Complex_Main
begin

section \<open>Common Python and numpy notions\<close>

text \<open>
  The scripts of RCNLP are Python 2 programs over numpy arrays. The embedding keeps the
  following conventions.
  \<^item> A finite numpy float64 is modelled by the real number it denotes. In
    author\_clustering.py every arithmetic operation on floats yields the float64
    nearest to its exact result (\<open>float64\<close> below). In the ranking of similar
    documents a distance is written as the exact Euclidean distance of the two columns.
    Arrays that hold an infinity or a NaN are outside the model.
  \<^item> A one-dimensional array is a list of reals, a two-dimensional array is the list of
    its rows.
  \<^item> Every exception is a value of \<open>error\<close>; a function that may raise returns
    \<open>error + 'a\<close>, with \<open>Inl\<close> for the exception.
  \<^item> Calls into libraries and into modules of the repository that are not part of the
    sources at hand (file reading, part-of-speech conversion, the mdp flow, plotting,
    the PCA of scikit-learn) are parameters of the model and may themselves fail.
\<close>

datatype error =
    ConfigurationError
  | IndexError
  | ZeroDivisionError
  | ValueError
  | OverflowError
  | NotFittedError
  | IOError
  | ExternalLibraryError

type_synonym vector = "real list"
type_synonym array2d = "real list list"

text \<open>
  numpy indexing of an axis of length \<open>n\<close> by a Python integer: indices \<open>0 .. n-1\<close>
  are taken as they are, indices \<open>-n .. -1\<close> count from the end, everything else raises
  IndexError.
\<close>

definition np_index :: "nat \<Rightarrow> int \<Rightarrow> error + nat" where
  "np_index n i =
     (if 0 \<le> i \<and> i < int n then Inr (nat i)
      else if - int n \<le> i \<and> i < 0 then Inr (nat (int n + i))
      else Inl IndexError)"

text \<open>
  Sequencing of steps that may raise: the first exception ends the computation and is
  the result.
\<close>

definition bind_err :: "error + 'a \<Rightarrow> ('a \<Rightarrow> error + 'b) \<Rightarrow> error + 'b" where
  "bind_err r f = (case r of Inl e \<Rightarrow> Inl e | Inr x \<Rightarrow> f x)"

text \<open>Python's \<open>xs[k:]\<close> for an integer \<open>k\<close>; slicing never raises.\<close>

definition slice_from :: "'a list \<Rightarrow> int \<Rightarrow> 'a list" where
  "slice_from xs k =
     (let n = int (length xs);
          start = (if k < 0 then max (n + k) 0 else min k n)
      in drop (nat start) xs)"

text \<open>Python's \<open>int(x)\<close> on a float truncates towards zero.\<close>

definition py_int :: "real \<Rightarrow> int" where
  "py_int x = (if 0 \<le> x then \<lfloor>x\<rfloor> else \<lceil>x\<rceil>)"

subsection \<open>float64 arithmetic\<close>

text \<open>
  IEEE 754 binary64 with rounding to nearest, ties to the even significand. A float64
  other than zero is \<open>m * 2 ^ (e - 52)\<close> with an integer \<open>m\<close> of magnitude below
  \<open>2 ^ 53\<close> and an exponent \<open>e\<close> from \<open>-1022\<close> to \<open>1023\<close>.

  \<open>exponent x\<close> is the exponent of the binade of \<open>x\<close>: the largest \<open>e\<close> in that
  range with \<open>2 ^ e \<le> |x|\<close>, found by trying 1023, 1022, ... in turn, and \<open>-1022\<close>
  when there is none (zero and the subnormal numbers). \<open>float64 x\<close> rounds \<open>x\<close> to
  the nearest multiple of \<open>2 ^ (exponent x - 52)\<close>. A result of magnitude \<open>2 ^ 1024\<close>
  or more stands for an infinity (\<open>overflows\<close>).
\<close>

definition round_even :: "real \<Rightarrow> int" where
  "round_even y =
     (let f = \<lfloor>y\<rfloor>; d = y - of_int f
      in if d < 1 / 2 then f else if 1 / 2 < d then f + 1 else if even f then f else f + 1)"

fun exponent_search :: "nat \<Rightarrow> int \<Rightarrow> real \<Rightarrow> int" where
  "exponent_search 0 k a = k"
| "exponent_search (Suc n) k a = (if 2 powi k \<le> a then k else exponent_search n (k - 1) a)"

definition exponent :: "real \<Rightarrow> int" where
  "exponent x = exponent_search 2045 1023 \<bar>x\<bar>"

definition float64 :: "real \<Rightarrow> real" where
  "float64 x = (let u = 2 powi (exponent x - 52) in of_int (round_even (x / u)) * u)"

definition overflows :: "real \<Rightarrow> bool" where
  "overflows x = (2 powi 1024 \<le> \<bar>x\<bar>)"

subsection \<open>Stacking arrays\<close>

text \<open>
  \<open>np.vstack\<close> of two two-dimensional arrays: the rows of the first followed by the
  rows of the second; numpy raises ValueError when the row lengths differ. A list of
  rows records no row length when it is empty, so the check is made when both arrays
  have rows.
\<close>

fun width :: "array2d \<Rightarrow> nat" where
  "width [] = 0"
| "width (r # _) = length r"

definition np_vstack :: "array2d \<Rightarrow> array2d \<Rightarrow> error + array2d" where
  "np_vstack a b =
     (if a \<noteq> [] \<and> b \<noteq> [] \<and> width a \<noteq> width b then Inl ValueError else Inr (a @ b))"


section \<open>core/converters/RCNLPTagConverter.py\<close>

subsection \<open>The tag table\<close>

text \<open>
  \<open>get_tags\<close> returns a literal list. Its first entry is the string of two apostrophes,
  written here with its character codes.
\<close>

definition get_tags :: "string list" where
  "get_tags =
     [[CHR 0x27, CHR 0x27], '','', '':'', ''.'', ''``'', ''-LRB-'', ''-RRB-'', ''AFX'', ''CC'',
      ''CD'', ''DT'', ''EX'', ''FW'', ''IN'',
      ''IN'', ''JJ'', ''JJR'', ''JJS'', ''LS'', ''MD'', ''NN'', ''NNS'', ''NNP'', ''NNPS'',
      ''PDT'', ''POS'', ''PRP'',
      ''PRP$'', ''RB'', ''RBR'', ''RBS'', ''RP'', ''SYM'', ''TO'', ''UH'', ''VB'', ''VBZ'',
      ''VBP'', ''VBD'', ''VBN'',
      ''VBG'', ''WDT'', ''WP'', ''WP$'', ''WRB'']"

definition get_inputs_size :: nat where
  "get_inputs_size = length get_tags"

subsection \<open>Conversion of a text\<close>

text \<open>
  What the converter reads of a spaCy token: the token itself (compared with the
  entries of \<open>word_exclude\<close>) and its tag, the attribute \<^verbatim>\<open>tag_\<close> of spaCy.
\<close>

record token =
  orth :: string
  tag :: string

text \<open>
  \<open>doc_array\<close> starts as the empty one-dimensional array \<open>np.array([])\<close>, becomes the
  one-dimensional symbol of the first token and a two-dimensional array afterwards.
\<close>

datatype ndarray = Array1 vector | Array2 array2d

fun atleast_2d :: "ndarray \<Rightarrow> array2d" where
  "atleast_2d (Array1 v) = [v]"
| "atleast_2d (Array2 rs) = rs"

definition vstack :: "ndarray \<Rightarrow> ndarray \<Rightarrow> error + ndarray" where
  "vstack a b = bind_err (np_vstack (atleast_2d a) (atleast_2d b)) (\<lambda>rs. Inr (Array2 rs))"

text \<open>
  The language model and the two methods inherited from \<open>RCNLPConverter\<close>
  (\<open>tag_to_symbol\<close>, \<open>reduce\<close>) are not among the sources at hand; they are
  parameters.
\<close>

record converter_base =
  nlp :: "string \<Rightarrow> error + token list"
  tag_to_symbol :: "string \<Rightarrow> vector option"
  reduce :: "ndarray \<Rightarrow> error + ndarray"

text \<open>The loop over \<open>enumerate(doc)\<close>.\<close>

fun call_loop ::
  "converter_base \<Rightarrow> string list \<Rightarrow> token list \<Rightarrow> (nat \<times> token) list \<Rightarrow> ndarray
     \<Rightarrow> error + ndarray" where
  "call_loop B exclude word_exclude [] doc_array = Inr doc_array"
| "call_loop B exclude word_exclude ((index, word) # rest) doc_array =
     (if tag word \<notin> set exclude \<and> word \<notin> set word_exclude then
        (case tag_to_symbol B (tag word) of
           None \<Rightarrow> call_loop B exclude word_exclude rest doc_array
         | Some symb \<Rightarrow>
             if index = 0 then call_loop B exclude word_exclude rest (Array1 symb)
             else bind_err (vstack doc_array (Array1 symb))
                    (call_loop B exclude word_exclude rest))
      else call_loop B exclude word_exclude rest doc_array)"

definition call ::
  "converter_base \<Rightarrow> string \<Rightarrow> string list \<Rightarrow> token list \<Rightarrow> error + ndarray" where
  "call B txt exclude word_exclude =
     bind_err (nlp B txt) (\<lambda>doc.
     bind_err (call_loop B exclude word_exclude (enumerate 0 doc) (Array1 [])) (\<lambda>doc_array.
     reduce B doc_array))"

text \<open>
  The symbols of the tokens that pass both exclusions and have a symbol, in the order
  of the document.
\<close>

definition symbols :: "converter_base \<Rightarrow> string list \<Rightarrow> token list \<Rightarrow> token list \<Rightarrow> vector list" where
  "symbols B exclude word_exclude doc =
     List.map_filter
       (\<lambda>word. if tag word \<notin> set exclude \<and> word \<notin> set word_exclude
               then tag_to_symbol B (tag word) else None) doc"

text \<open>
  A language model and a symbol table for a document of two tokens, an article and a
  noun; \<open>reduce\<close> returns its argument.
\<close>

definition article_noun_base :: converter_base where
  "article_noun_base =
     \<lparr>nlp = (\<lambda>_. Inr [\<lparr>orth = ''The'', tag = ''DT''\<rparr>, \<lparr>orth = ''cat'', tag = ''NN''\<rparr>]),
      tag_to_symbol = (\<lambda>t. if t = ''DT'' then Some [1, 0]
                            else if t = ''NN'' then Some [0, 1] else None),
      reduce = Inr\<rparr>"

text \<open>A token is retained when neither exclusion applies and its tag has a symbol.\<close>

definition retained :: "converter_base \<Rightarrow> string list \<Rightarrow> token list \<Rightarrow> token \<Rightarrow> bool" where
  "retained B exclude word_exclude word =
     (tag word \<notin> set exclude \<and> word \<notin> set word_exclude
      \<and> tag_to_symbol B (tag word) \<noteq> None)"


section \<open>author\_clustering\_document\_embeddings.py\<close>

text \<open>
  The document embeddings are a two-dimensional array whose columns are the documents.
  \<open>shape1\<close> is \<open>document_embeddings.shape[1]\<close>; it is kept beside the rows because an
  array without rows still has a column count.
\<close>

record embeddings =
  shape1 :: nat
  rows :: array2d

definition wf_embeddings :: "embeddings \<Rightarrow> bool" where
  "wf_embeddings m = list_all (\<lambda>r. length r = shape1 m) (rows m)"

text \<open>\<open>document_embeddings[:, n]\<close> for a column \<open>n\<close> already in range.\<close>

definition column :: "embeddings \<Rightarrow> nat \<Rightarrow> vector" where
  "column m n = map (\<lambda>r. r ! n) (rows m)"

text \<open>\<open>scipy.spatial.distance.euclidean\<close> on two vectors of the same length.\<close>

definition euclidean :: "vector \<Rightarrow> vector \<Rightarrow> real" where
  "euclidean u v = sqrt (sum_list (map (\<lambda>(a, b). (a - b)\<^sup>2) (zip u v)))"

text \<open>
  The loop of \<open>get_similar_documents\<close> over \<open>range(document_embeddings.shape[1])\<close>,
  appending to \<open>similarities\<close>. The column of the query document is read inside the
  loop, so an index out of range raises only when some \<open>n\<close> differs from it.
\<close>

fun similarities_loop ::
  "int \<Rightarrow> embeddings \<Rightarrow> nat list \<Rightarrow> (nat \<times> real) list \<Rightarrow> error + (nat \<times> real) list" where
  "similarities_loop document_index m [] similarities = Inr similarities"
| "similarities_loop document_index m (n # ns) similarities =
     (if int n \<noteq> document_index then
        (case np_index (shape1 m) document_index of
           Inl e \<Rightarrow> Inl e
         | Inr c \<Rightarrow>
             similarities_loop document_index m ns
               (similarities @ [(n, euclidean (column m c) (column m n))]))
      else similarities_loop document_index m ns similarities)"

text \<open>
  \<open>similarities.sort(key=lambda tup: tup[1])\<close> is a stable sort on the distance;
  \<open>sort_key\<close> is the stable insertion sort of the list library, and a stable sort has
  one result only.
\<close>

definition get_similar_documents :: "int \<Rightarrow> embeddings \<Rightarrow> error + (nat \<times> real) list" where
  "get_similar_documents document_index m =
     (case similarities_loop document_index m [0..<shape1 m] [] of
        Inl e \<Rightarrow> Inl e
      | Inr similarities \<Rightarrow> Inr (sort_key snd similarities))"


section \<open>author\_clustering.py\<close>

subsection \<open>Experiment settings\<close>

definition rc_leak_rate :: real where "rc_leak_rate = 5 / 100"
definition rc_input_scaling :: real where "rc_input_scaling = 5 / 10"
definition rc_size :: nat where "rc_size = 100"
definition rc_spectral_radius :: real where "rc_spectral_radius = 9 / 10"
definition rc_word_sparsity :: real where "rc_word_sparsity = 5 / 10"

subsection \<open>The reservoir\<close>

text \<open>
  The parameters a reservoir node is constructed with. Its random weight matrices are
  not modelled: running the flow is a parameter of the model (\<open>run_flow\<close> below).
\<close>

record reservoir =
  input_dim :: nat
  output_dim :: nat
  input_scaling :: real
  leak_rate :: real
  spectral_radius :: real
  word_sparsity :: real

type_synonym flow = "reservoir list"

text \<open>
  Modelled from the spec: the constructor of \<open>RCNLPWordReservoirNode\<close>
  (core/nodes/RCNLPWordReservoirNode.py), which is not among the sources at hand. The
  specification requires of it that the parameters are stored unchanged and that a
  spectral radius \<open>\<le> 0\<close> is rejected as a configuration error; nothing else is said
  about invalid parameters.
\<close>

definition RCNLPWordReservoirNode ::
  "nat \<Rightarrow> nat \<Rightarrow> real \<Rightarrow> real \<Rightarrow> real \<Rightarrow> real \<Rightarrow> error + reservoir" where
  "RCNLPWordReservoirNode input_dim' output_dim' input_scaling' leak_rate' spectral_radius'
      word_sparsity' =
     (if spectral_radius' \<le> 0 then Inl ConfigurationError
      else Inr \<lparr>input_dim = input_dim', output_dim = output_dim',
                input_scaling = input_scaling', leak_rate = leak_rate',
                spectral_radius = spectral_radius', word_sparsity = word_sparsity'\<rparr>)"

text \<open>
  \<open>create_reservoir\<close> builds the node and wraps it in a one-node flow
  (\<open>mdp.Flow([reservoir])\<close>). It checks nothing itself.
\<close>

definition create_reservoir ::
  "nat \<Rightarrow> real \<Rightarrow> nat \<Rightarrow> real \<Rightarrow> real \<Rightarrow> real \<Rightarrow> error + flow" where
  "create_reservoir n_symbols word_sparsity' size' input_scaling' leak_rate' spectral_radius' =
     (case RCNLPWordReservoirNode n_symbols size' input_scaling' leak_rate' spectral_radius'
             word_sparsity' of
        Inl e \<Rightarrow> Inl e
      | Inr reservoir \<Rightarrow> Inr [reservoir])"

subsection \<open>Reservoir states\<close>

text \<open>
  The collaborators of \<open>generate_reservoir_states\<close>: reading the file, the
  part-of-speech converter, the execution of the flow on an input array, and the plot
  that is drawn and saved for an array. Each of them may fail, and a failure propagates.
\<close>

record env =
  read_file :: "string \<Rightarrow> error + string"
  converter :: "string \<Rightarrow> error + array2d"
  run_flow :: "flow \<Rightarrow> array2d \<Rightarrow> error + array2d"
  save_plot :: "array2d \<Rightarrow> error + unit"

definition generate_reservoir_states ::
  "env \<Rightarrow> flow \<Rightarrow> string \<Rightarrow> int \<Rightarrow> error + array2d" where
  "generate_reservoir_states E the_flow filename remove_startup =
     bind_err (read_file E filename) (\<lambda>text.
     bind_err (converter E text) (\<lambda>doc_array.
     bind_err (save_plot E doc_array) (\<lambda>_.
     bind_err (run_flow E the_flow doc_array) (\<lambda>out.
       let states = slice_from out remove_startup in
       bind_err (save_plot E states) (\<lambda>_.
       Inr states)))))"

text \<open>
  Collaborators that never fail, for running the script on concrete data: every file
  converts to the array \<open>doc\<close>, and the flow returns its input as the states.
\<close>

definition quiet_env :: "array2d \<Rightarrow> env" where
  "quiet_env doc =
     \<lparr>read_file = (\<lambda>_. Inr []), converter = (\<lambda>_. Inr doc),
      run_flow = (\<lambda>_ d. Inr d), save_plot = (\<lambda>_. Inr ())\<rparr>"

subsection \<open>The PCA image\<close>

text \<open>
  The image is a \<open>256 \<times> 256 \<times> 3\<close> array of floats. It is modelled by the function from
  an index triple to the value stored there; \<open>np.zeros\<close> is the constant function.
\<close>

type_synonym image = "nat \<times> nat \<times> nat \<Rightarrow> real"

definition zeros :: image where
  "zeros = (\<lambda>_. 0)"

text \<open>
  \<open>(v+1)*128\<close> as the code computes it: a float64 addition followed by a float64
  multiplication.
\<close>

definition pixel_value :: "real \<Rightarrow> real" where
  "pixel_value v = float64 (float64 (v + 1) * 128)"

text \<open>\<open>int((v+1)*128)\<close>; \<open>int\<close> of an infinity raises OverflowError.\<close>

definition float_index :: "real \<Rightarrow> error + int" where
  "float_index v =
     (if overflows (pixel_value v) then Inl OverflowError else Inr (py_int (pixel_value v)))"

text \<open>
  The pixel a point \<open>s\<close> is drawn at: \<open>(int((v1+1)*128), int((v2+1)*128))\<close> with
  \<open>v1 = s[index1]\<close> and \<open>v2 = s[index2]\<close>, both integers computed first and each
  then resolved on an axis of length 256 as numpy does.
\<close>

definition pixel_of :: "vector \<Rightarrow> int \<Rightarrow> int \<Rightarrow> error + nat \<times> nat" where
  "pixel_of s index1 index2 =
     bind_err (np_index (length s) index1) (\<lambda>a.
     bind_err (np_index (length s) index2) (\<lambda>b.
       let v1 = s ! a; v2 = s ! b in
       bind_err (float_index v1) (\<lambda>i.
       bind_err (float_index v2) (\<lambda>j.
       bind_err (np_index 256 i) (\<lambda>x.
       bind_err (np_index 256 j) (\<lambda>y.
       Inr (x, y)))))))"

text \<open>
  The body of both loops: \<open>image[..., ..., channel] += n_ratio\<close>, a float64
  addition.
\<close>

definition accumulate :: "image \<Rightarrow> vector \<Rightarrow> int \<Rightarrow> int \<Rightarrow> nat \<Rightarrow> real \<Rightarrow> error + image" where
  "accumulate img s index1 index2 channel n_ratio =
     (case pixel_of s index1 index2 of
        Inl e \<Rightarrow> Inl e
      | Inr (x, y) \<Rightarrow> Inr (img((x, y, channel) := float64 (img (x, y, channel) + n_ratio))))"

fun accumulate_all ::
  "image \<Rightarrow> array2d \<Rightarrow> int \<Rightarrow> int \<Rightarrow> nat \<Rightarrow> real \<Rightarrow> error + image" where
  "accumulate_all img [] index1 index2 channel n_ratio = Inr img"
| "accumulate_all img (s # states) index1 index2 channel n_ratio =
     (case accumulate img s index1 index2 channel n_ratio of
        Inl e \<Rightarrow> Inl e
      | Inr img' \<Rightarrow> accumulate_all img' states index1 index2 channel n_ratio)"

text \<open>
  \<open>256.0 / n_samples\<close> converts the integer to a float64 and divides in float64; it
  raises ZeroDivisionError when both arrays are empty.
\<close>

definition generate_pca_image :: "array2d \<Rightarrow> array2d \<Rightarrow> int \<Rightarrow> int \<Rightarrow> error + image" where
  "generate_pca_image states1 states2 index1 index2 =
     (let n_samples = length states1 + length states2 in
      if n_samples = 0 then Inl ZeroDivisionError
      else
        (let n_ratio = float64 (256 / float64 (real n_samples)) in
         case accumulate_all zeros states1 index1 index2 1 n_ratio of
           Inl e \<Rightarrow> Inl e
         | Inr img \<Rightarrow> accumulate_all img states2 index1 index2 2 n_ratio))"



text \<open>A point is in range when its pixel lies inside the image.\<close>

definition in_range :: "vector \<Rightarrow> int \<Rightarrow> int \<Rightarrow> bool" where
  "in_range s index1 index2 = (case pixel_of s index1 index2 of Inl _ \<Rightarrow> False | Inr _ \<Rightarrow> True)"

text \<open>
  Both coordinates that are read exist and are at least \<open>-1\<close> and below
  \<open>1 - 2 ^ -53\<close>. The float64 values in this interval are those from \<open>-1\<close> up to
  \<open>1 - 2 ^ -52\<close>: every float64 that is at least \<open>-1\<close> and below 1 except the
  last one, \<open>1 - 2 ^ -53\<close>.
\<close>

definition unit_square :: "vector \<Rightarrow> int \<Rightarrow> int \<Rightarrow> bool" where
  "unit_square s index1 index2 =
     (0 \<le> index1 \<and> index1 < int (length s) \<and> 0 \<le> index2 \<and> index2 < int (length s)
      \<and> - 1 \<le> s ! nat index1 \<and> s ! nat index1 < 1 - 1 / 2 ^ 53
      \<and> - 1 \<le> s ! nat index2 \<and> s ! nat index2 < 1 - 1 / 2 ^ 53)"


subsection \<open>The main script\<close>

text \<open>
  The PCA of scikit-learn is used through its object interface: \<open>PCA(n_components)\<close>
  creates an unfitted reducer, \<open>fit\<close> stores a fitted model in it, \<open>transform\<close>
  applies the stored model and leaves it as it is. What a fitted model is and what
  fitting and applying compute are parameters (\<open>fit_model\<close>, \<open>apply_model\<close>). The
  reducer keeps the list of the calls made on it, so that their number and order can be
  stated.
\<close>

datatype reducer_call = Fit array2d | Transform array2d

record 'm PCA =
  n_components :: "int option"
  fitted :: "'m option"
  calls :: "reducer_call list"

record 'm main_env =
  fit_model :: "int option \<Rightarrow> array2d \<Rightarrow> error + 'm"
  apply_model :: "'m \<Rightarrow> array2d \<Rightarrow> error + array2d"
  save_image :: "image \<Rightarrow> error + unit"

definition PCA_new :: "int option \<Rightarrow> 'm PCA" where
  "PCA_new n = \<lparr>n_components = n, fitted = None, calls = []\<rparr>"

definition PCA_fit :: "'m main_env \<Rightarrow> 'm PCA \<Rightarrow> array2d \<Rightarrow> error + 'm PCA" where
  "PCA_fit L pca X =
     bind_err (fit_model L (n_components pca) X) (\<lambda>model.
     Inr (pca\<lparr>fitted := Some model, calls := calls pca @ [Fit X]\<rparr>))"

definition PCA_transform ::
  "'m main_env \<Rightarrow> 'm PCA \<Rightarrow> array2d \<Rightarrow> error + array2d \<times> 'm PCA" where
  "PCA_transform L pca X =
     (case fitted pca of
        None \<Rightarrow> Inl NotFittedError
      | Some model \<Rightarrow>
          bind_err (apply_model L model X) (\<lambda>Y.
          Inr (Y, pca\<lparr>calls := calls pca @ [Transform X]\<rparr>)))"

text \<open>The command line arguments that are used, with \<open>--startup\<close> given.\<close>

record args =
  author1 :: string
  author2 :: string
  startup :: int
  ncomponents :: "int option"

text \<open>
  The body of the script from the creation of the reservoir on. The setup of the
  logging and \<open>logging.open_dir()\<close> have no part in the result and are left out. The
  arguments of \<open>generate_pca_image\<close> are evaluated from left to right.
\<close>

definition main :: "env \<Rightarrow> 'm main_env \<Rightarrow> args \<Rightarrow> error + image \<times> 'm PCA" where
  "main E L a =
     bind_err (create_reservoir 14 rc_word_sparsity rc_size rc_input_scaling rc_leak_rate
                 rc_spectral_radius) (\<lambda>flow.
     bind_err (generate_reservoir_states E flow (author1 a) (startup a)) (\<lambda>state1.
     bind_err (generate_reservoir_states E flow (author2 a) (startup a)) (\<lambda>state2.
     bind_err (np_vstack state1 state2) (\<lambda>join_states.
     bind_err (save_plot E join_states) (\<lambda>_.
     bind_err (PCA_fit L (PCA_new (ncomponents a)) join_states) (\<lambda>pca.
     bind_err (PCA_transform L pca state1) (\<lambda>(t1, pca).
     bind_err (PCA_transform L pca state2) (\<lambda>(t2, pca).
     bind_err (generate_pca_image t1 t2 0 1) (\<lambda>img.
     bind_err (save_image L img) (\<lambda>_.
     Inr (img, pca)))))))))))"



text \<open>
  Collaborators of the main script that never fail: a fitted model carries no
  information and applying it returns the array unchanged.
\<close>

definition quiet_main_env :: "unit main_env" where
  "quiet_main_env =
     \<lparr>fit_model = (\<lambda>_ _. Inr ()), apply_model = (\<lambda>_ X. Inr X), save_image = (\<lambda>_. Inr ())\<rparr>"


section \<open>Verification\<close>

subsection \<open>Sequencing\<close>

lemma bind_err_simps [simp]:
  "bind_err (Inl e) f = Inl e"
  "bind_err (Inr x) f = f x"
  by (simp_all add: bind_err_def)

lemma bind_err_eq_Inr:
  "bind_err r f = Inr y \<longleftrightarrow> (\<exists>x. r = Inr x \<and> f x = Inr y)"
  by (cases r) simp_all

subsection \<open>The tag table\<close>

text \<open>
  Claim C10. \<open>get_tags\<close> returns 45 strings; \<open>IN\<close> stands at the positions 13
  and 14 and nowhere else, and without one of the two the list has no repetition, so
  there are 44 distinct tags. \<open>_get_inputs_size\<close> is 45, one more than the number
  of distinct tags.
\<close>

theorem get_tags_duplicate_IN:
  "length get_tags = 45
   \<and> filter (\<lambda>i. get_tags ! i = ''IN'') [0..<length get_tags] = [13, 14]
   \<and> distinct (take 14 get_tags @ drop 15 get_tags)
   \<and> card (set get_tags) = 44
   \<and> get_inputs_size = 45
   \<and> get_inputs_size = card (set get_tags) + 1"
proof -
  have l: "length get_tags = 45" by (simp add: get_tags_def)
  have f: "filter (\<lambda>i. get_tags ! i = ''IN'') [0..<length get_tags] = [13, 14]"
    by (simp add: get_tags_def upt_rec nth_Cons')
  have d: "distinct (take 14 get_tags @ drop 15 get_tags)" by (simp add: get_tags_def)
  have c: "card (set get_tags) = 44" unfolding get_tags_def by (simp add: card_insert_if)
  show ?thesis using l f d c by (simp add: get_inputs_size_def)
qed

subsection \<open>Conversion of a text\<close>

lemma vstack_empty_array: "symb \<noteq> [] \<Longrightarrow> vstack (Array1 []) (Array1 symb) = Inl ValueError"
  by (simp add: vstack_def np_vstack_def)

lemma call_loop_from_empty:
  assumes "0 < k"
    and "\<exists>w\<in>set ws. retained B exclude word_exclude w"
    and "\<forall>w\<in>set ws. tag_to_symbol B (tag w) \<noteq> Some []"
  shows "call_loop B exclude word_exclude (enumerate k ws) (Array1 []) = Inl ValueError"
  using assms
proof (induction ws arbitrary: k)
  case Nil
  then show ?case by simp
next
  case (Cons w ws)
  show ?case
  proof (cases "retained B exclude word_exclude w")
    case True
    then obtain symb where s: "tag_to_symbol B (tag w) = Some symb"
      and ex: "tag w \<notin> set exclude" "w \<notin> set word_exclude"
      by (auto simp: retained_def)
    have "symb \<noteq> []" using Cons.prems(3) s by auto
    then show ?thesis
      using Cons.prems(1) s ex by (simp add: vstack_empty_array)
  next
    case False
    then have rest: "\<exists>w\<in>set ws. retained B exclude word_exclude w"
      using Cons.prems(2) by auto
    have ih: "call_loop B exclude word_exclude (enumerate (Suc k) ws) (Array1 []) = Inl ValueError"
      using Cons.IH [of "Suc k"] rest Cons.prems(3) by simp
    show ?thesis
      using False ih by (auto simp: retained_def)
  qed
qed

text \<open>
  Claim C8 asks for one vector for every retained token. The loop recognises the first
  retained token by \<open>index == 0\<close>, the position in the document. When the token at
  position 0 is not retained and a later token is, the symbol of that token is stacked
  onto \<open>np.array([])\<close>, whose row has length 0, and the call raises ValueError
  instead of returning the vectors.
\<close>

theorem call_first_token_not_retained:
  assumes "nlp B txt = Inr (w0 # ws)"
    and "\<not> retained B exclude word_exclude w0"
    and "\<exists>w\<in>set ws. retained B exclude word_exclude w"
    and "\<forall>w\<in>set ws. tag_to_symbol B (tag w) \<noteq> Some []"
  shows "call B txt exclude word_exclude = Inl ValueError"
proof -
  have "call_loop B exclude word_exclude (enumerate 0 (w0 # ws)) (Array1 [])
          = call_loop B exclude word_exclude (enumerate 1 ws) (Array1 [])"
    using assms(2) by (auto simp: retained_def)
  also have "\<dots> = Inl ValueError"
    using assms(3,4) by (intro call_loop_from_empty) simp_all
  finally show ?thesis
    using assms(1) by (simp add: call_def)
qed

text \<open>
  A document of an article and a noun, with the tag of the article excluded.
\<close>

theorem call_first_token_not_retained_witness:
  "nlp article_noun_base ''The cat''
     = Inr (\<lparr>orth = ''The'', tag = ''DT''\<rparr> # [\<lparr>orth = ''cat'', tag = ''NN''\<rparr>])
   \<and> \<not> retained article_noun_base [''DT''] [] \<lparr>orth = ''The'', tag = ''DT''\<rparr>
   \<and> (\<exists>w\<in>set [\<lparr>orth = ''cat'', tag = ''NN''\<rparr>]. retained article_noun_base [''DT''] [] w)
   \<and> tag_to_symbol article_noun_base (tag \<lparr>orth = ''cat'', tag = ''NN''\<rparr>) \<noteq> Some []
   \<and> call article_noun_base ''The cat'' [''DT''] [] = Inl ValueError"
proof -
  have 1: "nlp article_noun_base ''The cat''
     = Inr (\<lparr>orth = ''The'', tag = ''DT''\<rparr> # [\<lparr>orth = ''cat'', tag = ''NN''\<rparr>])"
    by (simp add: article_noun_base_def)
  have 2: "\<not> retained article_noun_base [''DT''] [] \<lparr>orth = ''The'', tag = ''DT''\<rparr>"
    by (simp add: retained_def)
  have 3: "\<exists>w\<in>set [\<lparr>orth = ''cat'', tag = ''NN''\<rparr>]. retained article_noun_base [''DT''] [] w"
    by (simp add: retained_def article_noun_base_def)
  have 4: "\<forall>w\<in>set [\<lparr>orth = ''cat'', tag = ''NN''\<rparr>]. tag_to_symbol article_noun_base (tag w) \<noteq> Some []"
    by (simp add: article_noun_base_def)
  have 5: "tag_to_symbol article_noun_base (tag \<lparr>orth = ''cat'', tag = ''NN''\<rparr>) \<noteq> Some []"
    using 4 by simp
  show ?thesis
    using 1 2 3 5 call_first_token_not_retained [OF 1 2 3 4] by blast
qed

text \<open>
  When the token at position 0 is retained, the result is what the claim describes: the
  symbols of the retained tokens in the order of the document, handed to \<open>reduce\<close>
  as one vector when there is one and as the rows of an array otherwise.
\<close>

lemma symbols_Cons:
  "symbols B exclude word_exclude (w # ws) =
     (if tag w \<notin> set exclude \<and> w \<notin> set word_exclude
      then (case tag_to_symbol B (tag w) of None \<Rightarrow> symbols B exclude word_exclude ws
            | Some v \<Rightarrow> v # symbols B exclude word_exclude ws)
      else symbols B exclude word_exclude ws)"
  by (simp add: symbols_def map_filter_simps split: option.splits)

lemma symbols_Nil: "symbols B exclude word_exclude [] = []"
  by (simp add: symbols_def map_filter_simps)

lemma call_loop_stacks:
  assumes "0 < k" and "rs \<noteq> []" and "\<forall>r\<in>set rs. length r = n"
    and "\<forall>v\<in>set (symbols B exclude word_exclude ws). length v = n"
    and "atleast_2d d = rs"
  shows "call_loop B exclude word_exclude (enumerate k ws) d =
           Inr (if symbols B exclude word_exclude ws = [] then d
                else Array2 (rs @ symbols B exclude word_exclude ws))"
  using assms
proof (induction ws arbitrary: k rs d)
  case Nil
  then show ?case by (simp add: symbols_Nil)
next
  case (Cons w ws)
  show ?case
  proof (cases "tag w \<notin> set exclude \<and> w \<notin> set word_exclude \<and> tag_to_symbol B (tag w) \<noteq> None")
    case False
    then have same: "symbols B exclude word_exclude (w # ws) = symbols B exclude word_exclude ws"
      by (auto simp: symbols_Cons)
    have "call_loop B exclude word_exclude (enumerate k (w # ws)) d
            = call_loop B exclude word_exclude (enumerate (Suc k) ws) d"
      using False by auto
    also have "\<dots> = Inr (if symbols B exclude word_exclude ws = [] then d
                else Array2 (rs @ symbols B exclude word_exclude ws))"
      using Cons.prems by (intro Cons.IH) (simp_all add: same)
    finally show ?thesis by (simp add: same)
  next
    case True
    then obtain v where v: "tag_to_symbol B (tag w) = Some v" by auto
    have sy: "symbols B exclude word_exclude (w # ws) = v # symbols B exclude word_exclude ws"
      using True v by (simp add: symbols_Cons)
    have lv: "length v = n" using Cons.prems(4) by (simp add: sy)
    have wd: "width rs = n" using Cons.prems(2,3) by (cases rs) auto
    have st: "vstack d (Array1 v) = Inr (Array2 (rs @ [v]))"
      using Cons.prems(5) lv wd by (simp add: vstack_def np_vstack_def)
    have "call_loop B exclude word_exclude (enumerate k (w # ws)) d
            = call_loop B exclude word_exclude (enumerate (Suc k) ws) (Array2 (rs @ [v]))"
      using True v Cons.prems(1) st by simp
    also have "\<dots> = Inr (if symbols B exclude word_exclude ws = [] then Array2 (rs @ [v])
                else Array2 ((rs @ [v]) @ symbols B exclude word_exclude ws))"
      using Cons.prems(3,4) lv by (intro Cons.IH) (auto simp: sy)
    finally show ?thesis by (simp add: sy)
  qed
qed

lemma call_first_token_retained:
  assumes "nlp B txt = Inr (w0 # ws)"
    and "retained B exclude word_exclude w0"
    and "\<forall>v\<in>set (symbols B exclude word_exclude (w0 # ws)). length v = n"
  shows "call B txt exclude word_exclude =
           reduce B (case symbols B exclude word_exclude (w0 # ws) of
                       [v] \<Rightarrow> Array1 v | vs \<Rightarrow> Array2 vs)"
proof -
  from assms(2) obtain v0 where v0: "tag_to_symbol B (tag w0) = Some v0"
    and ex: "tag w0 \<notin> set exclude" "w0 \<notin> set word_exclude"
    by (auto simp: retained_def)
  have sy: "symbols B exclude word_exclude (w0 # ws) = v0 # symbols B exclude word_exclude ws"
    using v0 ex by (simp add: symbols_Cons)
  have "call_loop B exclude word_exclude (enumerate 0 (w0 # ws)) (Array1 [])
          = call_loop B exclude word_exclude (enumerate 1 ws) (Array1 v0)"
    using v0 ex by simp
  also have "\<dots> = Inr (if symbols B exclude word_exclude ws = [] then Array1 v0
                else Array2 ([v0] @ symbols B exclude word_exclude ws))"
    using assms(3) by (intro call_loop_stacks [where n = n]) (simp_all add: sy)
  finally show ?thesis
    using assms(1) by (simp add: call_def sy split: list.splits)
qed

subsection \<open>Similar documents\<close>

lemma lex_insort:
  "sorted_wrt (\<lambda>p q. f p < f q \<or> (f p = f q \<and> g p < g q)) ys \<Longrightarrow> \<forall>y\<in>set ys. g x < g y
   \<Longrightarrow> sorted_wrt (\<lambda>p q. f p < f q \<or> (f p = f q \<and> g p < g q)) (insort_key f x ys)"
  for f :: "'a \<Rightarrow> 'b::linorder" and g :: "'a \<Rightarrow> 'c::linorder"
  by (induction ys) (auto simp: set_insort_key)

lemma lex_sort_key:
  "sorted_wrt (\<lambda>p q. g p < g q) xs
   \<Longrightarrow> sorted_wrt (\<lambda>p q. f p < f q \<or> (f p = f q \<and> g p < g q)) (sort_key f xs)"
  for f :: "'a \<Rightarrow> 'b::linorder" and g :: "'a \<Rightarrow> 'c::linorder"
  by (induction xs) (auto intro!: lex_insort)

lemma similarities_loop_valid:
  "0 \<le> i \<Longrightarrow> i < int (shape1 m) \<Longrightarrow>
   similarities_loop i m ns acc =
     Inr (acc @ map (\<lambda>n. (n, euclidean (column m (nat i)) (column m n))) (filter (\<lambda>n. int n \<noteq> i) ns))"
  by (induction ns arbitrary: acc) (auto simp: np_index_def)

lemma sqrt_25: "sqrt 25 = 5"
  using real_sqrt_abs[of 5] by simp

lemma euclidean_self: "euclidean u u = 0"
  by (induction u) (simp_all add: euclidean_def)

lemma ranking_example:
  "get_similar_documents 0 \<lparr>shape1 = 3, rows = [[0, 1, 3], [0, 0, 4]]\<rparr> = Inr [(1, 1), (2, 5)]"
  by (simp add: get_similar_documents_def upt_rec np_index_def euclidean_def column_def sqrt_25)

lemma length_filter_neq:
  "i < n \<Longrightarrow> length (filter (\<lambda>j. j \<noteq> i) [0..<n]) = n - 1"
proof -
  assume "i < n"
  have "{j \<in> set [0..<n]. j \<noteq> i} = {0..<n} - {i}" by auto
  then have "card {j \<in> set [0..<n]. j \<noteq> i} = n - 1" using \<open>i < n\<close> by simp
  moreover have "distinct (filter (\<lambda>j. j \<noteq> i) [0..<n])" by simp
  ultimately show ?thesis
    by (metis distinct_card set_filter)
qed

text \<open>
  Claim C1. For an array of embeddings with at least two columns and a column index
  \<open>i\<close> in range, \<open>get_similar_documents\<close> returns one pair of a column and a
  distance for every column other than \<open>i\<close>: the list has one entry less than there
  are columns, no column occurs twice, the columns are exactly those different from
  \<open>i\<close>, every distance is the Euclidean distance between column \<open>i\<close> and the
  column it is paired with, and the list ascends in the distance, equal distances in
  increasing column. For the columns \<open>A = (0,0)\<close>, \<open>B = (1,0)\<close>, \<open>C = (3,4)\<close>
  the ranking from \<open>A\<close> is \<open>[(B, 1), (C, 5)]\<close>.
\<close>

theorem get_similar_documents_ranking:
  assumes "wf_embeddings m" and "2 \<le> shape1 m" and "0 \<le> i" and "i < int (shape1 m)"
  shows "(\<exists>r. get_similar_documents i m = Inr r
            \<and> length r = shape1 m - 1
            \<and> distinct (map fst r)
            \<and> set (map fst r) = {j. j < shape1 m \<and> int j \<noteq> i}
            \<and> (\<forall>(j, d) \<in> set r. d = euclidean (column m (nat i)) (column m j))
            \<and> sorted (map snd r)
            \<and> sorted_wrt (\<lambda>p q. snd p < snd q \<or> (snd p = snd q \<and> fst p < fst q)) r)
         \<and> get_similar_documents 0 \<lparr>shape1 = 3, rows = [[0, 1, 3], [0, 0, 4]]\<rparr>
             = Inr [(1, 1), (2, 5)]"
proof -
  define d where "d = (\<lambda>n. euclidean (column m (nat i)) (column m n))"
  define js where "js = filter (\<lambda>n. int n \<noteq> i) [0..<shape1 m]"
  define xs where "xs = map (\<lambda>n. (n, d n)) js"
  define r where "r = sort_key snd xs"
  have res: "get_similar_documents i m = Inr r"
    using assms(3,4)
    by (simp add: get_similar_documents_def similarities_loop_valid r_def xs_def js_def d_def)
  have fst_xs: "map fst xs = js"
    by (simp add: xs_def comp_def)
  have js_eq: "js = filter (\<lambda>j. j \<noteq> nat i) [0..<shape1 m]"
    unfolding js_def using assms(3) by (intro filter_cong) auto
  have len: "length r = shape1 m - 1"
    using assms(3,4) by (simp add: r_def xs_def js_eq length_filter_neq)
  have dist_xs: "distinct (map fst xs)"
    by (simp add: fst_xs js_def)
  have "distinct xs"
    using dist_xs by (rule distinct_map [THEN iffD1, THEN conjunct1])
  have inj: "inj_on fst (set xs)"
    using dist_xs by (simp add: distinct_map)
  have dist: "distinct (map fst r)"
    using \<open>distinct xs\<close> inj by (simp add: r_def distinct_map)
  have set_r: "set (map fst r) = {j. j < shape1 m \<and> int j \<noteq> i}"
  proof -
    have "set (map fst r) = fst ` set xs" by (simp add: r_def)
    also have "\<dots> = set js" using fst_xs by (metis set_map)
    also have "\<dots> = {j. j < shape1 m \<and> int j \<noteq> i}" by (auto simp: js_def)
    finally show ?thesis .
  qed
  have vals: "\<forall>(j, e) \<in> set r. e = euclidean (column m (nat i)) (column m j)"
    by (auto simp: r_def xs_def d_def)
  have srt: "sorted (map snd r)"
    by (simp add: r_def)
  have "sorted_wrt (\<lambda>p q. fst p < fst q) xs"
  proof -
    have "sorted_wrt (<) js"
      unfolding js_def by (rule sorted_wrt_filter) simp
    then have "sorted_wrt (<) (map fst xs)" by (simp add: fst_xs)
    then show ?thesis by (simp add: sorted_wrt_map)
  qed
  then have lex: "sorted_wrt (\<lambda>p q. snd p < snd q \<or> (snd p = snd q \<and> fst p < fst q)) r"
    unfolding r_def by (rule lex_sort_key)
  show ?thesis
    using res len dist set_r vals srt lex ranking_example by blast
qed

text \<open>
  The ranking from the column \<open>C\<close> of the same array.
\<close>

theorem get_similar_documents_ranking_witness:
  "wf_embeddings \<lparr>shape1 = 3, rows = [[0, 1, 3], [0, 0, 4]]\<rparr>
   \<and> 2 \<le> shape1 \<lparr>shape1 = 3, rows = [[0, 1, 3], [0, 0, 4]]\<rparr>
   \<and> (0::int) \<le> 2 \<and> 2 < int (shape1 \<lparr>shape1 = 3, rows = [[0, 1, 3], [0, 0, 4]]\<rparr>)
   \<and> (\<exists>r. get_similar_documents 2 \<lparr>shape1 = 3, rows = [[0, 1, 3], [0, 0, 4]]\<rparr> = Inr r
         \<and> length r = 2 \<and> set (map fst r) = {0, 1} \<and> sorted (map snd r))"
proof -
  have h: "wf_embeddings \<lparr>shape1 = 3, rows = [[0, 1, 3], [0, 0, 4]]\<rparr>"
    by (simp add: wf_embeddings_def)
  have s: "{j. j < (3::nat) \<and> int j \<noteq> 2} = {0, 1}" by auto
  from get_similar_documents_ranking [OF h, of 2] s show ?thesis
    using h by auto
qed

text \<open>
  Claim C2, amended. With fewer than two columns \<open>get_similar_documents\<close> raises
  no configuration error. An array without columns, and an array of one column asked
  for index 0, give the empty list; an array of one column asked for index \<open>-1\<close>
  gives the column itself at distance 0; every other index raises the IndexError of
  numpy.
\<close>

theorem get_similar_documents_few_columns:
  assumes "wf_embeddings m" and "shape1 m < 2"
  shows "get_similar_documents i m =
           (if shape1 m = 0 \<or> i = 0 then Inr []
            else if i = - 1 then Inr [(0, 0)]
            else Inl IndexError)"
proof -
  consider "shape1 m = 0" | "shape1 m = 1" using assms(2) by linarith
  then show ?thesis
  proof cases
    case 1
    then show ?thesis by (simp add: get_similar_documents_def)
  next
    case 2
    then show ?thesis
      by (simp add: get_similar_documents_def np_index_def euclidean_self)
  qed
qed

text \<open>
  An array of one column and two rows, asked for the indices 0, \<open>-1\<close> and 1.
\<close>

theorem get_similar_documents_few_columns_witness:
  "wf_embeddings \<lparr>shape1 = 1, rows = [[3], [4]]\<rparr>
   \<and> shape1 \<lparr>shape1 = 1, rows = [[3], [4]]\<rparr> < 2
   \<and> get_similar_documents 0 \<lparr>shape1 = 1, rows = [[3], [4]]\<rparr> = Inr []
   \<and> get_similar_documents (- 1) \<lparr>shape1 = 1, rows = [[3], [4]]\<rparr> = Inr [(0, 0)]
   \<and> get_similar_documents 1 \<lparr>shape1 = 1, rows = [[3], [4]]\<rparr> = Inl IndexError"
proof -
  have h: "wf_embeddings \<lparr>shape1 = 1, rows = [[3], [4]]\<rparr>"
    by (simp add: wf_embeddings_def)
  show ?thesis
    using h get_similar_documents_few_columns [OF h, of 0]
      get_similar_documents_few_columns [OF h, of "- 1"]
      get_similar_documents_few_columns [OF h, of 1]
    by simp
qed

text \<open>
  The ranking on an array of one column returns the empty list; it does not fail.
\<close>

theorem single_column_counterexample:
  "get_similar_documents 0 \<lparr>shape1 = 1, rows = [[3], [4]]\<rparr> = Inr []"
  by (simp add: get_similar_documents_def)

subsection \<open>Construction of the reservoir\<close>

text \<open>
  Claim C5. With a spectral radius \<open>\<le> 0\<close> the construction of the reservoir
  fails with a configuration error: \<open>create_reservoir\<close> hands the parameters to the
  constructor of the node, which rejects them, and passes the failure on.
\<close>

theorem create_reservoir_rejects_spectral_radius:
  "spectral_radius' \<le> 0 \<Longrightarrow>
   create_reservoir n_symbols word_sparsity' size' input_scaling' leak_rate' spectral_radius'
     = Inl ConfigurationError"
  by (simp add: create_reservoir_def RCNLPWordReservoirNode_def)

text \<open>
  The settings of the script with the spectral radius replaced by 0.
\<close>

theorem create_reservoir_rejects_spectral_radius_witness:
  "(0::real) \<le> 0 \<and> create_reservoir 14 (1/2) 100 (1/2) (1/20) 0 = Inl ConfigurationError"
  using create_reservoir_rejects_spectral_radius [of 0 14 "1/2" 100 "1/2" "1/20"] by simp

lemma create_reservoir_settings:
  "create_reservoir 14 rc_word_sparsity rc_size rc_input_scaling rc_leak_rate rc_spectral_radius
     = Inr [\<lparr>input_dim = 14, output_dim = rc_size, input_scaling = rc_input_scaling,
              leak_rate = rc_leak_rate, spectral_radius = rc_spectral_radius,
              word_sparsity = rc_word_sparsity\<rparr>]"
  by (simp add: create_reservoir_def RCNLPWordReservoirNode_def rc_spectral_radius_def)

subsection \<open>Reservoir states\<close>

lemma slice_from_nonneg: "0 \<le> k \<Longrightarrow> slice_from xs k = drop (nat k) xs"
  by (auto simp: slice_from_def Let_def min_def)

lemma generate_reservoir_states_ok:
  assumes "read_file E filename = Inr txt" and "converter E txt = Inr doc_array"
    and "save_plot E doc_array = Inr ()" and "run_flow E the_flow doc_array = Inr out"
    and "save_plot E (slice_from out k) = Inr ()"
  shows "generate_reservoir_states E the_flow filename k = Inr (slice_from out k)"
  using assms by (simp add: generate_reservoir_states_def Let_def)

lemma quiet_env_simps [simp]:
  "read_file (quiet_env doc) f = Inr []"
  "converter (quiet_env doc) t = Inr doc"
  "run_flow (quiet_env doc) fl d = Inr d"
  "save_plot (quiet_env doc) d = Inr ()"
  by (simp_all add: quiet_env_def)

text \<open>
  Claim C3. When reading, conversion, flow and plotting succeed and the startup count
  \<open>k\<close> satisfies \<open>0 \<le> k < len(states)\<close>, \<open>generate_reservoir_states\<close> returns
  \<open>states[k:]\<close>: the first \<open>k\<close> states are dropped and the others follow unchanged
  and in order; for \<open>k = 0\<close> the result is the whole sequence.
\<close>

theorem generate_reservoir_states_drops_startup:
  assumes "read_file E filename = Inr txt" and "converter E txt = Inr doc_array"
    and "save_plot E doc_array = Inr ()" and "run_flow E the_flow doc_array = Inr states"
    and "save_plot E (drop (nat k) states) = Inr ()"
    and "0 \<le> k" and "k < int (length states)"
  shows "\<exists>r. generate_reservoir_states E the_flow filename k = Inr r
           \<and> r = drop (nat k) states
           \<and> length r = length states - nat k
           \<and> (\<forall>j < length r. r ! j = states ! (nat k + j))
           \<and> (k = 0 \<longrightarrow> r = states)"
proof -
  have s: "slice_from states k = drop (nat k) states"
    using assms(6) by (rule slice_from_nonneg)
  have "generate_reservoir_states E the_flow filename k = Inr (drop (nat k) states)"
    using generate_reservoir_states_ok [OF assms(1-4), of k] assms(5) s by simp
  moreover have "\<forall>j < length (drop (nat k) states). drop (nat k) states ! j = states ! (nat k + j)"
    using assms(7) by simp
  ultimately show ?thesis by simp
qed

text \<open>
  Three states with one and with no startup state removed.
\<close>

theorem generate_reservoir_states_drops_startup_witness:
  "read_file (quiet_env [[1], [2], [3]]) ''a.txt'' = Inr []
   \<and> converter (quiet_env [[1], [2], [3]]) [] = Inr [[1], [2], [3]]
   \<and> save_plot (quiet_env [[1], [2], [3]]) [[1], [2], [3]] = Inr ()
   \<and> run_flow (quiet_env [[1], [2], [3]]) [] [[1], [2], [3]] = Inr [[1], [2], [3]]
   \<and> save_plot (quiet_env [[1], [2], [3]]) (drop (nat 1) [[1], [2], [3]]) = Inr ()
   \<and> (0::int) \<le> 1 \<and> (1::int) < int (length [[1], [2], [3::real]])
   \<and> generate_reservoir_states (quiet_env [[1], [2], [3]]) [] ''a.txt'' 1 = Inr [[2], [3]]
   \<and> generate_reservoir_states (quiet_env [[1], [2], [3]]) [] ''a.txt'' 0 = Inr [[1], [2], [3]]"
proof -
  have "\<exists>r. generate_reservoir_states (quiet_env [[1], [2], [3]]) [] ''a.txt'' 1 = Inr r
           \<and> r = drop (nat 1) [[1], [2], [3]]
           \<and> length r = length [[1], [2], [3::real]] - nat 1
           \<and> (\<forall>j < length r. r ! j = [[1], [2], [3]] ! (nat 1 + j))
           \<and> ((1::int) = 0 \<longrightarrow> r = [[1], [2], [3]])"
    by (rule generate_reservoir_states_drops_startup [of _ _ "[]" "[[1], [2], [3]]"]) simp_all
  then have 1: "generate_reservoir_states (quiet_env [[1], [2], [3]]) [] ''a.txt'' 1 = Inr [[2], [3]]"
    by auto
  have "\<exists>r. generate_reservoir_states (quiet_env [[1], [2], [3]]) [] ''a.txt'' 0 = Inr r
           \<and> r = drop (nat 0) [[1], [2], [3]]
           \<and> length r = length [[1], [2], [3::real]] - nat 0
           \<and> (\<forall>j < length r. r ! j = [[1], [2], [3]] ! (nat 0 + j))
           \<and> ((0::int) = 0 \<longrightarrow> r = [[1], [2], [3]])"
    by (rule generate_reservoir_states_drops_startup [of _ _ "[]" "[[1], [2], [3]]"]) simp_all
  then have 0: "generate_reservoir_states (quiet_env [[1], [2], [3]]) [] ''a.txt'' 0 = Inr [[1], [2], [3]]"
    by auto
  show ?thesis using 0 1 by simp
qed

text \<open>
  Claim C4, amended. When the startup count is at least the number of states, the
  slice \<open>states[k:]\<close> is empty and raises nothing: if reading, conversion, flow and
  plotting succeed, \<open>generate_reservoir_states\<close> returns the empty sequence.
\<close>

theorem generate_reservoir_states_startup_too_large:
  assumes "read_file E filename = Inr txt" and "converter E txt = Inr doc_array"
    and "save_plot E doc_array = Inr ()" and "run_flow E the_flow doc_array = Inr states"
    and "save_plot E [] = Inr ()"
    and "int (length states) \<le> k"
  shows "slice_from states k = [] \<and> generate_reservoir_states E the_flow filename k = Inr []"
proof -
  have s: "slice_from states k = []"
    using assms(6) by (auto simp: slice_from_def Let_def min_def)
  show ?thesis
    using generate_reservoir_states_ok [OF assms(1-4), of k] assms(5) s by simp
qed

text \<open>
  Three states and a startup count of 5.
\<close>

theorem generate_reservoir_states_startup_too_large_witness:
  "read_file (quiet_env [[1], [2], [3]]) ''a.txt'' = Inr []
   \<and> converter (quiet_env [[1], [2], [3]]) [] = Inr [[1], [2], [3]]
   \<and> save_plot (quiet_env [[1], [2], [3]]) [[1], [2], [3]] = Inr ()
   \<and> run_flow (quiet_env [[1], [2], [3]]) [] [[1], [2], [3]] = Inr [[1], [2], [3]]
   \<and> save_plot (quiet_env [[1], [2], [3]]) [] = Inr ()
   \<and> int (length [[1], [2], [3::real]]) \<le> 5
   \<and> slice_from [[1], [2], [3::real]] 5 = []
   \<and> generate_reservoir_states (quiet_env [[1], [2], [3]]) [] ''a.txt'' 5 = Inr []"
proof -
  have "slice_from [[1], [2], [3::real]] 5 = []
        \<and> generate_reservoir_states (quiet_env [[1], [2], [3]]) [] ''a.txt'' 5 = Inr []"
    by (rule generate_reservoir_states_startup_too_large [of _ _ "[]" "[[1], [2], [3]]"]) simp_all
  then show ?thesis by simp
qed

text \<open>
  Three states and a startup count of 3: the result is the empty sequence, not an
  error.
\<close>

theorem startup_too_large_counterexample:
  "generate_reservoir_states (quiet_env [[1], [2], [3]]) [] ''a.txt'' 3 = Inr []"
  by (simp add: generate_reservoir_states_def slice_from_def)

subsection \<open>float64 arithmetic\<close>

text \<open>Rounding to an integer leaves an integer as it is and does not pass one.\<close>

lemma round_even_of_int [simp]: "round_even (of_int m) = m"
  by (simp add: round_even_def)

lemma round_even_0 [simp]: "round_even 0 = 0"
  using round_even_of_int [of 0] by simp

lemma round_even_ge: "of_int m \<le> y \<Longrightarrow> m \<le> round_even y"
proof -
  assume "of_int m \<le> y"
  then have "m \<le> \<lfloor>y\<rfloor>" by (simp add: le_floor_iff)
  then show ?thesis by (auto simp: round_even_def Let_def)
qed

lemma round_even_le_half: "y < of_int m + 1 / 2 \<Longrightarrow> round_even y \<le> m"
proof -
  assume a: "y < of_int m + 1 / 2"
  then have "y < of_int (m + 1)" by simp
  then have "\<lfloor>y\<rfloor> < m + 1" by (simp only: floor_less_iff)
  then have f: "\<lfloor>y\<rfloor> \<le> m" by simp
  show ?thesis
  proof (cases "\<lfloor>y\<rfloor> = m")
    case True
    then have "y - of_int \<lfloor>y\<rfloor> < 1 / 2" using a by simp
    then show ?thesis using True by (simp add: round_even_def Let_def)
  next
    case False
    then have "\<lfloor>y\<rfloor> + 1 \<le> m" using f by simp
    then show ?thesis by (auto simp: round_even_def Let_def)
  qed
qed

lemma round_even_le: "y \<le> of_int m \<Longrightarrow> round_even y \<le> m"
  by (rule round_even_le_half) simp

text \<open>
  The search ends at the exponent of the binade of its argument, or at the least
  exponent when the argument is below every binade that is tried.
\<close>

lemma exponent_search_spec:
  "a < 2 powi (k0 + 1) \<Longrightarrow>
   k0 - int n \<le> exponent_search n k0 a \<and> exponent_search n k0 a \<le> k0
   \<and> a < 2 powi (exponent_search n k0 a + 1)
   \<and> (exponent_search n k0 a = k0 - int n \<or> 2 powi (exponent_search n k0 a) \<le> a)"
proof (induction n arbitrary: k0)
  case 0
  then show ?case by simp
next
  case (Suc n)
  show ?case
  proof (cases "2 powi k0 \<le> a")
    case True
    then show ?thesis using Suc.prems by simp
  next
    case False
    then have "a < 2 powi (k0 - 1 + 1)" by simp
    from Suc.IH [OF this] show ?thesis using False by auto
  qed
qed

lemma binade_unique:
  fixes a :: real
  assumes "2 powi j \<le> a" and "a < 2 powi (k + 1)"
  shows "j \<le> k"
proof (rule ccontr)
  assume "\<not> j \<le> k"
  then have "k + 1 \<le> j" by simp
  then have "(2::real) powi (k + 1) \<le> 2 powi j" by (intro power_int_increasing) simp_all
  then show False using assms by simp
qed

lemma exponent_spec:
  assumes "\<bar>x\<bar> < 2 powi 1024"
  shows "- 1022 \<le> exponent x \<and> exponent x \<le> 1023 \<and> \<bar>x\<bar> < 2 powi (exponent x + 1)
         \<and> (exponent x = - 1022 \<or> 2 powi (exponent x) \<le> \<bar>x\<bar>)"
proof -
  have "\<bar>x\<bar> < 2 powi (1023 + 1)" using assms by simp
  from exponent_search_spec [OF this, of 2045] show ?thesis
    by (simp add: exponent_def)
qed

lemma exponent_binade:
  assumes "2 powi k \<le> \<bar>x\<bar>" and "\<bar>x\<bar> < 2 powi (k + 1)" and "- 1022 \<le> k" and "k \<le> 1023"
  shows "exponent x = k"
proof -
  have "(2::real) powi (k + 1) \<le> 2 powi 1024"
    using assms(4) by (intro power_int_increasing) simp_all
  then have "\<bar>x\<bar> < 2 powi 1024" using assms(2) by simp
  from exponent_spec [OF this] have
    r: "- 1022 \<le> exponent x" and u: "\<bar>x\<bar> < 2 powi (exponent x + 1)"
    and l: "exponent x = - 1022 \<or> 2 powi (exponent x) \<le> \<bar>x\<bar>"
    by simp_all
  have 1: "k \<le> exponent x" using assms(1) u by (rule binade_unique)
  have 2: "exponent x \<le> k"
  proof (cases "exponent x = - 1022")
    case True
    then show ?thesis using assms(3) by simp
  next
    case False
    then have "2 powi (exponent x) \<le> \<bar>x\<bar>" using l by simp
    then show ?thesis using assms(2) by (rule binade_unique)
  qed
  show ?thesis using 1 2 by simp
qed

text \<open>
  Inside a binade \<open>float64\<close> rounds to a multiple of the spacing of that binade; a
  multiple of the spacing is rounded to itself; a nonnegative number is rounded to a
  nonnegative one; and a number that is less than half a spacing above a float64 is not
  rounded above it.
\<close>

lemma float64_binade:
  assumes "2 powi k \<le> \<bar>x\<bar>" and "\<bar>x\<bar> < 2 powi (k + 1)" and "- 1022 \<le> k" and "k \<le> 1023"
  shows "float64 x = of_int (round_even (x / 2 powi (k - 52))) * 2 powi (k - 52)"
  by (simp add: float64_def Let_def exponent_binade [OF assms])

lemma float64_exact:
  assumes "2 powi k \<le> \<bar>x\<bar>" and "\<bar>x\<bar> < 2 powi (k + 1)" and "- 1022 \<le> k" and "k \<le> 1023"
    and "x / 2 powi (k - 52) \<in> \<int>"
  shows "float64 x = x"
proof -
  from assms(5) obtain m where m: "x / 2 powi (k - 52) = of_int m" by (auto elim: Ints_cases)
  then have x: "x = of_int m * 2 powi (k - 52)" by (simp add: nonzero_divide_eq_eq)
  show ?thesis
    unfolding float64_binade [OF assms(1-4)] m round_even_of_int by (simp only: x)
qed

lemma float64_0 [simp]: "float64 0 = 0"
  by (simp add: float64_def Let_def)

lemma float64_nonneg: "0 \<le> x \<Longrightarrow> 0 \<le> float64 x"
proof -
  assume "0 \<le> x"
  then have "of_int 0 \<le> x / 2 powi (exponent x - 52)" by simp
  then have "0 \<le> round_even (x / 2 powi (exponent x - 52))" by (rule round_even_ge)
  then show ?thesis by (simp add: float64_def Let_def)
qed

lemma power_int_shift: "(2::real) powi (j + 1) = 2 ^ 53 * 2 powi (j - 52)"
proof -
  have e: "j + 1 = 53 + (j - 52)" by simp
  show ?thesis unfolding e by (subst power_int_add) simp_all
qed

lemma power_int_shift': "(2::real) powi j = 2 ^ 52 * 2 powi (j - 52)"
  using power_int_add [of "2::real" 52 "j - 52"] by simp

lemma float64_le_half:
  assumes "0 \<le> x" and "x < (of_int m + 1 / 2) * 2 powi (k - 52)"
    and "2 ^ 52 \<le> m" and "m < 2 ^ 53" and "- 1021 \<le> k" and "k \<le> 1023"
  shows "float64 x \<le> of_int m * 2 powi (k - 52)"
proof -
  let ?u = "(2::real) powi (k - 52)"
  have u: "0 < ?u" by simp
  have p53: "(2::real) powi (k + 1) = 2 ^ 53 * ?u" by (rule power_int_shift)
  have p52: "(2::real) powi k = 2 ^ 52 * ?u" by (rule power_int_shift')
  have "of_int m + 1 / 2 < (2::real) ^ 53"
  proof -
    have "m + 1 \<le> 2 ^ 53" using assms(4) by simp
    then have "(of_int (m + 1) :: real) \<le> of_int (2 ^ 53)" by (simp only: of_int_le_iff)
    then show ?thesis by simp
  qed
  then have "(of_int m + 1 / 2) * ?u < 2 ^ 53 * ?u" using u by (rule mult_strict_right_mono)
  then have "x < 2 ^ 53 * ?u" using assms(2) by (rule less_trans [rotated])
  then have top: "x < 2 powi (k + 1)" by (simp only: p53)
  have c_ge: "2 powi k \<le> of_int m * ?u"
  proof -
    have "(of_int (2 ^ 52) :: real) \<le> of_int m" using assms(3) by (simp only: of_int_le_iff)
    then have "(2::real) ^ 52 * ?u \<le> of_int m * ?u" using u by simp
    then show ?thesis using p52 by simp
  qed
  have ax: "\<bar>x\<bar> = x" using assms(1) by simp
  show ?thesis
  proof (cases "2 powi k \<le> x")
    case True
    have k: "- 1022 \<le> k" using assms(5) by simp
    have f: "float64 x = of_int (round_even (x / ?u)) * ?u"
      using True top k assms(6) by (intro float64_binade) (simp_all add: ax)
    have "x / ?u < of_int m + 1 / 2" using assms(2) u by (simp add: pos_divide_less_eq)
    then have "round_even (x / ?u) \<le> m" by (rule round_even_le_half)
    then have "(of_int (round_even (x / ?u)) :: real) \<le> of_int m" by (simp only: of_int_le_iff)
    then show ?thesis using u by (simp add: f)
  next
    case False
    then have lt: "x < 2 powi k" by simp
    have "(2::real) powi k \<le> 2 powi 1024" using assms(6) by (intro power_int_increasing) simp_all
    then have "\<bar>x\<bar> < 2 powi 1024" using lt ax by simp
    from exponent_spec [OF this] have
      up: "x < 2 powi (exponent x + 1)"
      and lo: "exponent x = - 1022 \<or> 2 powi (exponent x) \<le> x"
      by (simp_all add: ax)
    have jk: "exponent x + 1 \<le> k"
    proof (cases "exponent x = - 1022")
      case True
      then show ?thesis using assms(5) by simp
    next
      case False
      then have "2 powi (exponent x) \<le> x" using lo by simp
      then have "exponent x \<le> k - 1" using lt by (intro binade_unique [of _ x]) simp_all
      then show ?thesis by simp
    qed
    let ?v = "(2::real) powi (exponent x - 52)"
    have v: "0 < ?v" by simp
    have q53: "(2::real) powi (exponent x + 1) = 2 ^ 53 * ?v" by (rule power_int_shift)
    have "x / ?v < 2 ^ 53" using up v by (simp add: q53 pos_divide_less_eq)
    then have "x / ?v \<le> of_int (2 ^ 53)" by simp
    then have "round_even (x / ?v) \<le> 2 ^ 53" by (rule round_even_le)
    then have "(of_int (round_even (x / ?v)) :: real) \<le> of_int (2 ^ 53)" by (simp only: of_int_le_iff)
    then have "of_int (round_even (x / ?v)) * ?v \<le> 2 ^ 53 * ?v" using v by simp
    then have "float64 x \<le> 2 powi (exponent x + 1)" by (simp add: float64_def Let_def q53)
    also have "\<dots> \<le> 2 powi k" using jk by (intro power_int_increasing) simp_all
    also have "\<dots> \<le> of_int m * ?u" by (rule c_ge)
    finally show ?thesis .
  qed
qed

lemma float64_le:
  assumes "0 \<le> x" and "x \<le> of_int m * 2 powi (k - 52)"
    and "2 ^ 52 \<le> m" and "m < 2 ^ 53" and "- 1021 \<le> k" and "k \<le> 1023"
  shows "float64 x \<le> of_int m * 2 powi (k - 52)"
proof -
  have "(of_int m :: real) < of_int m + 1 / 2" by simp
  then have "of_int m * (2::real) powi (k - 52) < (of_int m + 1 / 2) * 2 powi (k - 52)"
    by (rule mult_strict_right_mono) simp
  with assms(2) have "x < (of_int m + 1 / 2) * 2 powi (k - 52)" by (rule le_less_trans)
  then show ?thesis using assms by (intro float64_le_half) simp_all
qed

text \<open>The values of \<open>float64\<close> that the examples below need.\<close>

lemma float64_1: "float64 1 = 1"
  by (rule float64_exact [of 0]) simp_all

lemma float64_2: "float64 2 = 2"
  by (rule float64_exact [of 1]) simp_all

lemma float64_3_2: "float64 (3 / 2) = 3 / 2"
  by (rule float64_exact [of 0]) simp_all

lemma float64_128: "float64 128 = 128"
  by (rule float64_exact [of 7]) simp_all

lemma float64_192: "float64 192 = 192"
  by (rule float64_exact [of 7]) simp_all

lemma float64_256: "float64 256 = 256"
  by (rule float64_exact [of 8]) simp_all

lemma float64_below_two: "float64 (2 - 1 / 2 ^ 53) = 2"
  by (subst float64_binade [of 0]) (simp_all add: round_even_def)

lemma float64_near_3_2: "float64 (3 / 2 - 1 / 2 ^ 54) = 3 / 2"
  by (subst float64_binade [of 0]) (simp_all add: round_even_def)

lemma not_overflows: "\<bar>x\<bar> \<le> 256 \<Longrightarrow> \<not> overflows x"
proof -
  assume a: "\<bar>x\<bar> \<le> 256"
  have "(2::real) powi 9 \<le> 2 powi 1024" by (intro power_int_increasing) simp_all
  then have "\<bar>x\<bar> < 2 powi 1024" using a by simp
  then show ?thesis by (simp add: overflows_def)
qed

subsection \<open>The PCA image\<close>


lemma pixel_value_0: "pixel_value 0 = 128"
  by (simp add: pixel_value_def float64_1 float64_128)

lemma pixel_value_half: "pixel_value (1 / 2) = 192"
  by (simp add: pixel_value_def float64_3_2 float64_192)

lemma pixel_value_minus_1: "pixel_value (- 1) = 0"
  by (simp add: pixel_value_def)

lemma pixel_value_1: "pixel_value 1 = 256"
  by (simp add: pixel_value_def float64_2 float64_256)

text \<open>
  The last float64 below 1: the sum with 1 is rounded to 2, so the pixel value is 256.
  Just below one half the sum is rounded up to \<open>3/2\<close>, so the pixel value is 192
  where the exact product is below 192.
\<close>

lemma pixel_value_below_1: "pixel_value (1 - 1 / 2 ^ 53) = 256"
proof -
  have "(1 - 1 / 2 ^ 53 + 1 :: real) = 2 - 1 / 2 ^ 53" by simp
  then show ?thesis
    unfolding pixel_value_def by (simp only: float64_below_two) (simp add: float64_256)
qed

lemma pixel_value_below_half: "pixel_value (1 / 2 - 1 / 2 ^ 54) = 192"
proof -
  have "(1 / 2 - 1 / 2 ^ 54 + 1 :: real) = 3 / 2 - 1 / 2 ^ 54" by simp
  then show ?thesis
    unfolding pixel_value_def by (simp only: float64_near_3_2) (simp add: float64_192)
qed

lemma float_index_small:
  "\<bar>pixel_value v\<bar> \<le> 256 \<Longrightarrow> float_index v = Inr (py_int (pixel_value v))"
  by (simp add: float_index_def not_overflows)

lemma pixel_value_unit:
  assumes "- 1 \<le> v" and "v < 1 - 1 / 2 ^ 53"
  shows "0 \<le> pixel_value v" and "pixel_value v < 256"
proof -
  have x0: "0 \<le> v + 1" using assms(1) by simp
  have x1: "v + 1 < (of_int 9007199254740991 + 1 / 2) * 2 powi (0 - 52)"
    using assms(2) by simp
  have y1: "float64 (v + 1) \<le> of_int 9007199254740991 * 2 powi (0 - 52)"
    using x0 x1 by (rule float64_le_half) simp_all
  have y0: "0 \<le> float64 (v + 1)"
    using x0 by (rule float64_nonneg)
  have z0: "0 \<le> float64 (v + 1) * 128" using y0 by simp
  have z1: "float64 (v + 1) * 128 \<le> of_int 9007199254740991 * 2 powi (7 - 52)"
    using y1 by simp
  show "0 \<le> pixel_value v"
    unfolding pixel_value_def using z0 by (rule float64_nonneg)
  have "pixel_value v \<le> of_int 9007199254740991 * 2 powi (7 - 52)"
    unfolding pixel_value_def using z0 z1 by (rule float64_le) simp_all
  then show "pixel_value v < 256" by simp
qed

lemma float_index_unit:
  assumes "- 1 \<le> v" and "v < 1 - 1 / 2 ^ 53"
  shows "float_index v = Inr \<lfloor>pixel_value v\<rfloor>"
    and "0 \<le> \<lfloor>pixel_value v\<rfloor>" and "\<lfloor>pixel_value v\<rfloor> \<le> 255"
    and "np_index 256 \<lfloor>pixel_value v\<rfloor> = Inr (nat \<lfloor>pixel_value v\<rfloor>)"
proof -
  note p = pixel_value_unit [OF assms]
  have "\<bar>pixel_value v\<bar> \<le> 256" using p by simp
  then show "float_index v = Inr \<lfloor>pixel_value v\<rfloor>"
    using p(1) by (simp add: float_index_small py_int_def)
  show lo: "0 \<le> \<lfloor>pixel_value v\<rfloor>" using p(1) by simp
  have "\<lfloor>pixel_value v\<rfloor> < 256" using p(2) by (simp add: floor_less_iff)
  then show hi: "\<lfloor>pixel_value v\<rfloor> \<le> 255" by simp
  show "np_index 256 \<lfloor>pixel_value v\<rfloor> = Inr (nat \<lfloor>pixel_value v\<rfloor>)"
    using lo hi by (simp add: np_index_def)
qed

lemma pixel_of_unit_square:
  assumes "unit_square s index1 index2"
  shows "pixel_of s index1 index2 =
           Inr (nat \<lfloor>pixel_value (s ! nat index1)\<rfloor>, nat \<lfloor>pixel_value (s ! nat index2)\<rfloor>)"
proof -
  have a: "np_index (length s) index1 = Inr (nat index1)"
    and b: "np_index (length s) index2 = Inr (nat index2)"
    using assms by (simp_all add: unit_square_def np_index_def)
  have r: "- 1 \<le> s ! nat index1" "s ! nat index1 < 1 - 1 / 2 ^ 53"
    "- 1 \<le> s ! nat index2" "s ! nat index2 < 1 - 1 / 2 ^ 53"
    using assms by (simp_all add: unit_square_def)
  show ?thesis
    unfolding pixel_of_def a b Let_def bind_err_simps
      float_index_unit(1) [OF r(1,2)] float_index_unit(1) [OF r(3,4)]
      float_index_unit(4) [OF r(1,2)] float_index_unit(4) [OF r(3,4)] ..
qed


lemma in_range_iff: "in_range s index1 index2 \<longleftrightarrow> (\<exists>x y. pixel_of s index1 index2 = Inr (x, y))"
  by (cases "pixel_of s index1 index2") (auto simp: in_range_def)

lemma unit_square_in_range: "unit_square s index1 index2 \<Longrightarrow> in_range s index1 index2"
  by (simp add: in_range_iff pixel_of_unit_square)

lemma accumulate_all_in_range:
  "\<forall>s\<in>set states. in_range s index1 index2 \<Longrightarrow>
   \<exists>img'. accumulate_all img states index1 index2 channel n_ratio = Inr img'"
  by (induction states arbitrary: img) (auto simp: in_range_iff accumulate_def)



lemma generate_pca_image_in_range:
  assumes "\<forall>s\<in>set (states1 @ states2). in_range s index1 index2" and "states1 @ states2 \<noteq> []"
  shows "\<exists>img. generate_pca_image states1 states2 index1 index2 = Inr img"
proof -
  let ?r = "float64 (256 / float64 (real (length states1 + length states2)))"
  obtain img1 where 1: "accumulate_all zeros states1 index1 index2 1 ?r = Inr img1"
    using accumulate_all_in_range [of states1 index1 index2 zeros 1 ?r] assms(1) by auto
  obtain img2 where 2: "accumulate_all img1 states2 index1 index2 2 ?r = Inr img2"
    using accumulate_all_in_range [of states2 index1 index2 img1 2 ?r] assms(1) by auto
  show ?thesis
    using assms(2) 1 2 by (auto simp: generate_pca_image_def Let_def)
qed



lemma single_point_first:
  "pixel_of s index1 index2 = Inr (x, y) \<Longrightarrow>
   generate_pca_image [s] [] index1 index2 = Inr (zeros((x, y, 1) := 256))"
  by (simp add: generate_pca_image_def accumulate_def zeros_def float64_1 float64_256)


lemma px1: "pixel_of [0, 0] 0 1 = Inr (128, 128)"
proof -
  have "unit_square [0, 0] 0 1" by (simp add: unit_square_def)
  then show ?thesis by (simp add: pixel_of_unit_square pixel_value_0)
qed

lemma px2: "pixel_of [1 / 2, - 1] 0 1 = Inr (192, 0)"
proof -
  have "unit_square [1 / 2, - 1] 0 1" by (simp add: unit_square_def)
  then show ?thesis by (simp add: pixel_of_unit_square pixel_value_half pixel_value_minus_1)
qed

lemma px_corner: "pixel_of [1, 1] 0 1 = Inl IndexError"
  by (simp add: pixel_of_def np_index_def float_index_small pixel_value_1 py_int_def)

lemma px_below_corner: "pixel_of [1 - 1 / 2 ^ 53, 0] 0 1 = Inl IndexError"
proof -
  have "float_index (1 - 1 / 2 ^ 53) = Inr 256"
    by (subst float_index_small) (simp_all only: pixel_value_below_1, simp_all add: py_int_def)
  moreover have "float_index 0 = Inr 128"
    by (subst float_index_small) (simp_all add: pixel_value_0 py_int_def)
  ultimately show ?thesis
    by (simp add: pixel_of_def np_index_def)
qed

lemma origin_example: "generate_pca_image [[0, 0]] [] 0 1 = Inr (zeros((128, 128, 1) := 256))"
  using px1 by (rule single_point_first)

text \<open>
  Claim C6, amended. For points whose two coordinates that are read are at least
  \<open>-1\<close> and below \<open>1 - 2 ^ -53\<close> (every float64 from \<open>-1\<close> up to 1 except 1
  itself and the last float64 below it), each coordinate is mapped to the integer part of
  the float64 value that the code computes for \<open>(coord+1)*128\<close>; this index lies
  between 0 and 255, and \<open>generate_pca_image\<close> returns an image without an index out
  of range. The point \<open>(0,0)\<close> is accumulated at the pixel \<open>(128,128)\<close>.
\<close>

theorem generate_pca_image_pixels:
  assumes "\<forall>s\<in>set (states1 @ states2). unit_square s index1 index2"
    and "states1 @ states2 \<noteq> []"
  shows "(\<forall>s\<in>set (states1 @ states2).
            float_index (s ! nat index1) = Inr \<lfloor>pixel_value (s ! nat index1)\<rfloor>
          \<and> float_index (s ! nat index2) = Inr \<lfloor>pixel_value (s ! nat index2)\<rfloor>
          \<and> 0 \<le> \<lfloor>pixel_value (s ! nat index1)\<rfloor> \<and> \<lfloor>pixel_value (s ! nat index1)\<rfloor> \<le> 255
          \<and> 0 \<le> \<lfloor>pixel_value (s ! nat index2)\<rfloor> \<and> \<lfloor>pixel_value (s ! nat index2)\<rfloor> \<le> 255
          \<and> pixel_of s index1 index2 =
               Inr (nat \<lfloor>pixel_value (s ! nat index1)\<rfloor>, nat \<lfloor>pixel_value (s ! nat index2)\<rfloor>))
       \<and> (\<exists>img. generate_pca_image states1 states2 index1 index2 = Inr img)
       \<and> generate_pca_image [[0, 0]] [] 0 1 = Inr (zeros((128, 128, 1) := 256))"
proof -
  have "\<forall>s\<in>set (states1 @ states2). in_range s index1 index2"
    using assms(1) unit_square_in_range by blast
  then have "\<exists>img. generate_pca_image states1 states2 index1 index2 = Inr img"
    using assms(2) by (rule generate_pca_image_in_range)
  moreover have "\<forall>s\<in>set (states1 @ states2).
            float_index (s ! nat index1) = Inr \<lfloor>pixel_value (s ! nat index1)\<rfloor>
          \<and> float_index (s ! nat index2) = Inr \<lfloor>pixel_value (s ! nat index2)\<rfloor>
          \<and> 0 \<le> \<lfloor>pixel_value (s ! nat index1)\<rfloor> \<and> \<lfloor>pixel_value (s ! nat index1)\<rfloor> \<le> 255
          \<and> 0 \<le> \<lfloor>pixel_value (s ! nat index2)\<rfloor> \<and> \<lfloor>pixel_value (s ! nat index2)\<rfloor> \<le> 255
          \<and> pixel_of s index1 index2 =
               Inr (nat \<lfloor>pixel_value (s ! nat index1)\<rfloor>, nat \<lfloor>pixel_value (s ! nat index2)\<rfloor>)"
  proof
    fix s assume "s \<in> set (states1 @ states2)"
    then have u: "unit_square s index1 index2" using assms(1) by blast
    then have r: "- 1 \<le> s ! nat index1" "s ! nat index1 < 1 - 1 / 2 ^ 53"
      "- 1 \<le> s ! nat index2" "s ! nat index2 < 1 - 1 / 2 ^ 53"
      by (simp_all add: unit_square_def)
    show "float_index (s ! nat index1) = Inr \<lfloor>pixel_value (s ! nat index1)\<rfloor>
          \<and> float_index (s ! nat index2) = Inr \<lfloor>pixel_value (s ! nat index2)\<rfloor>
          \<and> 0 \<le> \<lfloor>pixel_value (s ! nat index1)\<rfloor> \<and> \<lfloor>pixel_value (s ! nat index1)\<rfloor> \<le> 255
          \<and> 0 \<le> \<lfloor>pixel_value (s ! nat index2)\<rfloor> \<and> \<lfloor>pixel_value (s ! nat index2)\<rfloor> \<le> 255
          \<and> pixel_of s index1 index2 =
               Inr (nat \<lfloor>pixel_value (s ! nat index1)\<rfloor>, nat \<lfloor>pixel_value (s ! nat index2)\<rfloor>)"
      using float_index_unit(1-3) [OF r(1,2)] float_index_unit(1-3) [OF r(3,4)]
        pixel_of_unit_square [OF u] by simp
  qed
  ultimately show ?thesis using origin_example by blast
qed

text \<open>
  Two points in the first set and one in the second.
\<close>

theorem generate_pca_image_pixels_witness:
  "unit_square [0, 0] 0 1 \<and> unit_square [1 / 2, - 1] 0 1
   \<and> [[0, 0], [1 / 2, - 1]] @ [[0, 0::real]] \<noteq> []
   \<and> pixel_of [1 / 2, - 1] 0 1 = Inr (192, 0)
   \<and> (\<exists>img. generate_pca_image [[0, 0], [1 / 2, - 1]] [[0, 0]] 0 1 = Inr img)"
proof -
  have h: "\<forall>s\<in>set ([[0, 0], [1 / 2, - 1]] @ [[0, 0]]). unit_square s 0 1"
    by (simp add: unit_square_def)
  have n: "[[0, 0], [1 / 2, - 1]] @ [[0, 0::real]] \<noteq> []" by simp
  have m: "[1 / 2, - 1] \<in> set ([[0, 0], [1 / 2, - 1]] @ [[0, 0::real]])" by simp
  from generate_pca_image_pixels [OF h n]
  have p: "\<forall>s\<in>set ([[0, 0], [1 / 2, - 1]] @ [[0, 0]]). pixel_of s 0 1 =
               Inr (nat \<lfloor>pixel_value (s ! nat 0)\<rfloor>, nat \<lfloor>pixel_value (s ! nat 1)\<rfloor>)"
    and e: "\<exists>img. generate_pca_image [[0, 0], [1 / 2, - 1]] [[0, 0]] 0 1 = Inr img"
    by blast+
  from p m have "pixel_of [1 / 2, - 1] 0 1 =
      Inr (nat \<lfloor>pixel_value ([1 / 2, - 1 :: real] ! nat 0)\<rfloor>,
           nat \<lfloor>pixel_value ([1 / 2, - 1 :: real] ! nat 1)\<rfloor>)"
    by (rule bspec)
  then have "pixel_of [1 / 2, - 1] 0 1 = Inr (192, 0)"
    by (simp add: pixel_value_half pixel_value_minus_1)
  moreover have "unit_square [0, 0] 0 1 \<and> unit_square [1 / 2, - 1] 0 1"
    using h by simp
  ultimately show ?thesis using n e by blast
qed

text \<open>
  The coordinate 1 is mapped to the index 256, which is outside an axis of length
  256: for the point \<open>(1,1)\<close> the accumulation raises IndexError.
\<close>

theorem corner_point_counterexample:
  "py_int (pixel_value 1) = 256 \<and> generate_pca_image [[1, 1]] [] 0 1 = Inl IndexError"
  by (simp add: generate_pca_image_def accumulate_def px_corner pixel_value_1 py_int_def)



















subsection \<open>The main script\<close>

lemma PCA_fit_Inr:
  "PCA_fit L pca X = Inr pca' \<longleftrightarrow>
     (\<exists>model. fit_model L (n_components pca) X = Inr model
        \<and> pca' = pca\<lparr>fitted := Some model, calls := calls pca @ [Fit X]\<rparr>)"
  by (auto simp: PCA_fit_def bind_err_eq_Inr)

lemma PCA_transform_Inr:
  "PCA_transform L pca X = Inr (Y, pca') \<longleftrightarrow>
     (\<exists>model. fitted pca = Some model \<and> apply_model L model X = Inr Y
        \<and> pca' = pca\<lparr>calls := calls pca @ [Transform X]\<rparr>)"
  by (auto simp: PCA_transform_def bind_err_eq_Inr split: option.splits)

lemma np_vstack_Inr: "np_vstack a b = Inr c \<Longrightarrow> c = a @ b"
  by (auto simp: np_vstack_def split: if_splits)

text \<open>
  Claim C9. In a run of the script that completes, the reducer has received exactly
  three calls: one \<open>fit\<close> on the states of the first author followed by the states
  of the second, then \<open>transform\<close> on the states of the first author, then
  \<open>transform\<close> on the states of the second. Both transforms apply the model that
  this one fit has stored, which is still the model of the reducer at the end, and the
  image is drawn from their two results.
\<close>

theorem main_fits_once:
  assumes "main E L a = Inr (img, pca)"
  shows "\<exists>flow state1 state2 model t1 t2.
           create_reservoir 14 rc_word_sparsity rc_size rc_input_scaling rc_leak_rate
             rc_spectral_radius = Inr flow
         \<and> generate_reservoir_states E flow (author1 a) (startup a) = Inr state1
         \<and> generate_reservoir_states E flow (author2 a) (startup a) = Inr state2
         \<and> calls pca = [Fit (state1 @ state2), Transform state1, Transform state2]
         \<and> fit_model L (ncomponents a) (state1 @ state2) = Inr model
         \<and> fitted pca = Some model
         \<and> apply_model L model state1 = Inr t1
         \<and> apply_model L model state2 = Inr t2
         \<and> generate_pca_image t1 t2 0 1 = Inr img"
proof -
  from assms obtain flow state1 state2 join_states pca1 t1 pca2 t2 pca3 where
    f: "create_reservoir 14 rc_word_sparsity rc_size rc_input_scaling rc_leak_rate
             rc_spectral_radius = Inr flow"
    and s1: "generate_reservoir_states E flow (author1 a) (startup a) = Inr state1"
    and s2: "generate_reservoir_states E flow (author2 a) (startup a) = Inr state2"
    and j: "np_vstack state1 state2 = Inr join_states"
    and fit: "PCA_fit L (PCA_new (ncomponents a)) join_states = Inr pca1"
    and tr1: "PCA_transform L pca1 state1 = Inr (t1, pca2)"
    and tr2: "PCA_transform L pca2 state2 = Inr (t2, pca3)"
    and g: "generate_pca_image t1 t2 0 1 = Inr img"
    and p: "pca = pca3"
    unfolding main_def bind_err_eq_Inr by (auto simp: bind_err_eq_Inr)
  have js: "join_states = state1 @ state2"
    using j by (rule np_vstack_Inr)
  from fit obtain model where
    m: "fit_model L (ncomponents a) join_states = Inr model"
    and pca1: "pca1 = (PCA_new (ncomponents a))\<lparr>fitted := Some model, calls := [Fit join_states]\<rparr>"
    by (auto simp: PCA_fit_Inr PCA_new_def)
  from tr1 have a1: "apply_model L model state1 = Inr t1"
    and pca2: "pca2 = pca1\<lparr>calls := calls pca1 @ [Transform state1]\<rparr>"
    by (auto simp: PCA_transform_Inr pca1)
  from tr2 have a2: "apply_model L model state2 = Inr t2"
    and pca3: "pca3 = pca2\<lparr>calls := calls pca2 @ [Transform state2]\<rparr>"
    by (auto simp: PCA_transform_Inr pca2 pca1)
  have c: "calls pca = [Fit (state1 @ state2), Transform state1, Transform state2]"
    by (simp add: p pca3 pca2 pca1 js)
  have ft: "fitted pca = Some model"
    by (simp add: p pca3 pca2 pca1)
  show ?thesis
    using f s1 s2 c m ft a1 a2 g unfolding js by blast
qed

lemma quiet_run:
  "main (quiet_env [[0, 0], [1 / 2, - 1]]) quiet_main_env
     \<lparr>author1 = ''a'', author2 = ''b'', startup = 1, ncomponents = Some 2\<rparr>
   = Inr (zeros((192, 0, 1) := 128, (192, 0, 2) := 128),
          \<lparr>n_components = Some 2, fitted = Some (),
           calls = [Fit [[1 / 2, - 1], [1 / 2, - 1]], Transform [[1 / 2, - 1]],
                    Transform [[1 / 2, - 1]]]\<rparr>)"
  by (simp add: main_def create_reservoir_settings generate_reservoir_states_def slice_from_def
      np_vstack_def PCA_fit_def PCA_new_def PCA_transform_def quiet_main_env_def
      generate_pca_image_def accumulate_def px2 zeros_def float64_2 float64_128)

text \<open>
  A run in which each author has one state left after the startup state is removed.
\<close>

theorem main_fits_once_witness:
  "main (quiet_env [[0, 0], [1 / 2, - 1]]) quiet_main_env
     \<lparr>author1 = ''a'', author2 = ''b'', startup = 1, ncomponents = Some 2\<rparr>
   = Inr (zeros((192, 0, 1) := 128, (192, 0, 2) := 128),
          \<lparr>n_components = Some 2, fitted = Some (),
           calls = [Fit [[1 / 2, - 1], [1 / 2, - 1]], Transform [[1 / 2, - 1]],
                    Transform [[1 / 2, - 1]]]\<rparr>)
   \<and> (\<exists>flow state1 state2 model t1 t2.
           create_reservoir 14 rc_word_sparsity rc_size rc_input_scaling rc_leak_rate
             rc_spectral_radius = Inr flow
         \<and> generate_reservoir_states (quiet_env [[0, 0], [1 / 2, - 1]]) flow ''a'' 1 = Inr state1
         \<and> generate_reservoir_states (quiet_env [[0, 0], [1 / 2, - 1]]) flow ''b'' 1 = Inr state2
         \<and> [Fit [[1 / 2, - 1], [1 / 2, - 1]], Transform [[1 / 2, - 1]], Transform [[1 / 2, - 1]]]
             = [Fit (state1 @ state2), Transform state1, Transform state2]
         \<and> fit_model quiet_main_env (Some 2) (state1 @ state2) = Inr model
         \<and> apply_model quiet_main_env model state1 = Inr t1
         \<and> apply_model quiet_main_env model state2 = Inr t2
         \<and> generate_pca_image t1 t2 0 1 = Inr (zeros((192, 0, 1) := 128, (192, 0, 2) := 128)))"
  using main_fits_once [OF quiet_run] quiet_run by simp

end

